theory Spec2Isabelle
  imports Complex_Main
begin

section \<open>Data model (types.ts)\<close>

datatype AppMode = CAPTION | EDIT | ANALYZE

datatype Category = Funny | Sarcastic | Relatable | Dark | Wholesome

text \<open>The field \<open>text\<close> of a suggestion is called \<open>caption_text\<close> here.\<close>

record CaptionSuggestion =
  caption_text :: string
  category :: Category

record AnalysisResult =
  description :: string
  tags :: "string list"

section \<open>Session state of the App component\<close>

text \<open>
  One field per \<open>useState\<close> slot. A slot of type \<open>string | null\<close> is a
  \<open>string option\<close>; JavaScript's truthiness test \<open>!x\<close> on such a slot is false for
  \<open>null\<close> and for the empty string.
\<close>

record app_state =
  mode :: AppMode
  imageSrc :: "string option"
  isLoading :: bool
  error :: "string option"
  captions :: "CaptionSuggestion list"
  selectedCaption :: string
  topText :: string
  bottomText :: string
  editPrompt :: string
  analysis :: "AnalysisResult option"

definition initial_state :: app_state where
  "initial_state =
     \<lparr>mode = CAPTION, imageSrc = None, isLoading = False, error = None,
      captions = [], selectedCaption = [], topText = [], bottomText = [],
      editPrompt = [], analysis = None\<rparr>"

fun truthy :: "string option \<Rightarrow> bool" where
  "truthy None = False"
| "truthy (Some s) = (s \<noteq> [])"

text \<open>\<open>a || b\<close> on a possibly undefined string and a default.\<close>

fun or_default :: "string option \<Rightarrow> string \<Rightarrow> string" where
  "or_default None d = d"
| "or_default (Some s) d = (if s \<noteq> [] then s else d)"

subsection \<open>Image handling\<close>

definition resetState :: "app_state \<Rightarrow> app_state" where
  "resetState s =
     s\<lparr>captions := [], selectedCaption := [], topText := [], bottomText := [],
       editPrompt := [], analysis := None, error := None\<rparr>"

text \<open>
  \<open>handleFileUpload\<close>: the argument is what the reader delivers to \<open>onload\<close>
  (\<open>event.target?.result\<close>), or \<open>None\<close> when no file was chosen.
\<close>

definition handleFileUpload :: "string option \<Rightarrow> app_state \<Rightarrow> app_state" where
  "handleFileUpload result s =
     (if truthy result then resetState (s\<lparr>imageSrc := result\<rparr>) else s)"

text \<open>
  \<open>selectTemplate\<close> runs in two steps around the fetch: the part before the first
  \<open>await\<close>, and the completion, which is either the \<open>catch\<close> branch (\<open>Inl ()\<close>) or
  the reader's \<open>onloadend\<close> with \<open>reader.result\<close>.
\<close>

definition selectTemplate_begin :: "app_state \<Rightarrow> app_state" where
  "selectTemplate_begin s = s\<lparr>isLoading := True\<rparr>"

fun selectTemplate_end :: "unit + string option \<Rightarrow> app_state \<Rightarrow> app_state" where
  "selectTemplate_end (Inr result) s =
     resetState (s\<lparr>imageSrc := result, isLoading := False\<rparr>)"
| "selectTemplate_end (Inl _) s =
     s\<lparr>error := Some ''Failed to load template'', isLoading := False\<rparr>"

definition selectTemplate :: "unit + string option \<Rightarrow> app_state \<Rightarrow> app_state" where
  "selectTemplate outcome s = selectTemplate_end outcome (selectTemplate_begin s)"

subsection \<open>AI actions\<close>

text \<open>
  Each handler returns at once when its guard fails (\<open>None\<close>: no request is made).
  Otherwise it sets the busy flag and clears the error, awaits the gateway, and
  completes: \<open>Inr\<close> carries the gateway's result, \<open>Inl\<close> the \<open>message\<close> of the
  error it threw (possibly undefined). The \<open>finally\<close> block is the last update of
  either branch.
\<close>

definition handleMagicCaption_begin :: "app_state \<Rightarrow> app_state option" where
  "handleMagicCaption_begin s =
     (if \<not> truthy (imageSrc s) then None
      else Some (s\<lparr>isLoading := True, error := None\<rparr>))"

fun handleMagicCaption_end ::
  "string option + CaptionSuggestion list \<Rightarrow> app_state \<Rightarrow> app_state" where
  "handleMagicCaption_end (Inr suggestions) s =
     (s\<lparr>captions := suggestions\<rparr>)\<lparr>isLoading := False\<rparr>"
| "handleMagicCaption_end (Inl message) s =
     (s\<lparr>error := Some (or_default message ''Failed to generate captions'')\<rparr>)
       \<lparr>isLoading := False\<rparr>"

definition handleMagicCaption ::
  "string option + CaptionSuggestion list \<Rightarrow> app_state \<Rightarrow> app_state" where
  "handleMagicCaption outcome s =
     (case handleMagicCaption_begin s of
        None \<Rightarrow> s
      | Some s1 \<Rightarrow> handleMagicCaption_end outcome s1)"

definition handleEditImage_begin :: "app_state \<Rightarrow> app_state option" where
  "handleEditImage_begin s =
     (if \<not> truthy (imageSrc s) \<or> editPrompt s = [] then None
      else Some (s\<lparr>isLoading := True, error := None\<rparr>))"

fun handleEditImage_end :: "string option + string \<Rightarrow> app_state \<Rightarrow> app_state" where
  "handleEditImage_end (Inr newImageBase64) s =
     (s\<lparr>imageSrc := Some newImageBase64, editPrompt := []\<rparr>)\<lparr>isLoading := False\<rparr>"
| "handleEditImage_end (Inl message) s =
     (s\<lparr>error := Some (or_default message ''Failed to edit image'')\<rparr>)
       \<lparr>isLoading := False\<rparr>"

definition handleEditImage :: "string option + string \<Rightarrow> app_state \<Rightarrow> app_state" where
  "handleEditImage outcome s =
     (case handleEditImage_begin s of
        None \<Rightarrow> s
      | Some s1 \<Rightarrow> handleEditImage_end outcome s1)"

definition handleAnalyzeImage_begin :: "app_state \<Rightarrow> app_state option" where
  "handleAnalyzeImage_begin s =
     (if \<not> truthy (imageSrc s) then None
      else Some (s\<lparr>isLoading := True, error := None\<rparr>))"

fun handleAnalyzeImage_end ::
  "string option + AnalysisResult \<Rightarrow> app_state \<Rightarrow> app_state" where
  "handleAnalyzeImage_end (Inr result) s =
     (s\<lparr>analysis := Some result\<rparr>)\<lparr>isLoading := False\<rparr>"
| "handleAnalyzeImage_end (Inl message) s =
     (s\<lparr>error := Some (or_default message ''Failed to analyze image'')\<rparr>)
       \<lparr>isLoading := False\<rparr>"

definition handleAnalyzeImage ::
  "string option + AnalysisResult \<Rightarrow> app_state \<Rightarrow> app_state" where
  "handleAnalyzeImage outcome s =
     (case handleAnalyzeImage_begin s of
        None \<Rightarrow> s
      | Some s1 \<Rightarrow> handleAnalyzeImage_end outcome s1)"

subsection \<open>Inline handlers of the controls\<close>

definition suggestion_onClick :: "CaptionSuggestion \<Rightarrow> app_state \<Rightarrow> app_state" where
  "suggestion_onClick cap s =
     s\<lparr>selectedCaption := caption_text cap, topText := [], bottomText := []\<rparr>"

definition topText_onChange :: "string \<Rightarrow> app_state \<Rightarrow> app_state" where
  "topText_onChange v s = s\<lparr>topText := v, selectedCaption := []\<rparr>"

definition bottomText_onChange :: "string \<Rightarrow> app_state \<Rightarrow> app_state" where
  "bottomText_onChange v s = s\<lparr>bottomText := v, selectedCaption := []\<rparr>"

definition editPrompt_onChange :: "string \<Rightarrow> app_state \<Rightarrow> app_state" where
  "editPrompt_onChange v s = s\<lparr>editPrompt := v\<rparr>"

text \<open>
  Everything that can change the session: each constructor is one callback of the
  component. The asynchronous handlers appear as their two steps, so that other events
  may come between a request and its completion. A suggestion button exists for each
  index of the current captions list.
\<close>

datatype event =
    SetMode AppMode
  | FileLoaded "string option"
  | TemplateBegin
  | TemplateEnd "unit + string option"
  | MagicBegin
  | MagicEnd "string option + CaptionSuggestion list"
  | EditBegin
  | EditEnd "string option + string"
  | AnalyzeBegin
  | AnalyzeEnd "string option + AnalysisResult"
  | ClickSuggestion nat
  | ChangeTop string
  | ChangeBottom string
  | ChangePrompt string
  | NewImage

fun step :: "app_state \<Rightarrow> event \<Rightarrow> app_state" where
  "step s (SetMode m) = s\<lparr>mode := m\<rparr>"
| "step s (FileLoaded r) = handleFileUpload r s"
| "step s TemplateBegin = selectTemplate_begin s"
| "step s (TemplateEnd r) = selectTemplate_end r s"
| "step s MagicBegin = (case handleMagicCaption_begin s of None \<Rightarrow> s | Some s1 \<Rightarrow> s1)"
| "step s (MagicEnd r) = handleMagicCaption_end r s"
| "step s EditBegin = (case handleEditImage_begin s of None \<Rightarrow> s | Some s1 \<Rightarrow> s1)"
| "step s (EditEnd r) = handleEditImage_end r s"
| "step s AnalyzeBegin = (case handleAnalyzeImage_begin s of None \<Rightarrow> s | Some s1 \<Rightarrow> s1)"
| "step s (AnalyzeEnd r) = handleAnalyzeImage_end r s"
| "step s (ClickSuggestion idx) =
     (if idx < length (captions s) then suggestion_onClick (captions s ! idx) s else s)"
| "step s (ChangeTop v) = topText_onChange v s"
| "step s (ChangeBottom v) = bottomText_onChange v s"
| "step s (ChangePrompt v) = editPrompt_onChange v s"
| "step s NewImage = s\<lparr>imageSrc := None\<rparr>"

definition run :: "event list \<Rightarrow> app_state" where
  "run es = foldl step initial_state es"

text \<open>At most one of the two caption representations is non-empty.\<close>

definition exclusive :: "app_state \<Rightarrow> bool" where
  "exclusive s = (selectedCaption s = [] \<or> (topText s = [] \<and> bottomText s = []))"

section \<open>Drawing to the canvas\<close>

subsection \<open>The browser's side\<close>

text \<open>
  What the effect obtains from the browser: the natural size of the decoded image
  (\<open>None\<close> when the image never fires \<open>onload\<close>), the width that
  \<open>ctx.measureText\<close> reports for a string under the current font, and
  \<open>String.prototype.toUpperCase\<close>. Numbers are real numbers; the division and the
  factor \<open>1.1\<close> are taken as exact.
\<close>

record font_spec =
  weight :: nat
  px :: int
  family :: string

record browser =
  decode :: "string \<Rightarrow> (nat \<times> nat) option"
  measureText :: "font_spec \<Rightarrow> string \<Rightarrow> real"
  toUpperCase :: "string \<Rightarrow> string"

definition Math_round :: "real \<Rightarrow> int" where
  "Math_round x = \<lfloor>x + 1 / 2\<rfloor>"

definition Math_floor :: "real \<Rightarrow> int" where
  "Math_floor x = \<lfloor>x\<rfloor>"

text \<open>
  The context holds the properties the effect assigns, with the values it assigns. The
  bitmap is the list of drawing calls made since it was last cleared; each text call
  keeps the context it was made under. Assigning the canvas's width or height clears
  the bitmap.
\<close>

record context2d =
  font :: font_spec
  fillStyle :: string
  strokeStyle :: string
  lineWidth :: int
  textAlign :: string
  textBaseline :: string

datatype draw_op =
    DrawImage string real real real real
  | StrokeText context2d string real real
  | FillText context2d string real real

record canvas =
  width :: nat
  height :: nat
  supports2d :: bool
  ctx :: context2d
  bitmap :: "draw_op list"

definition set_canvas_width :: "nat \<Rightarrow> canvas \<Rightarrow> canvas" where
  "set_canvas_width w c = c\<lparr>width := w, bitmap := []\<rparr>"

definition set_canvas_height :: "nat \<Rightarrow> canvas \<Rightarrow> canvas" where
  "set_canvas_height h c = c\<lparr>height := h, bitmap := []\<rparr>"

definition drawImage :: "string \<Rightarrow> real \<Rightarrow> real \<Rightarrow> real \<Rightarrow> real \<Rightarrow> canvas \<Rightarrow> canvas" where
  "drawImage img x y w h c = c\<lparr>bitmap := bitmap c @ [DrawImage img x y w h]\<rparr>"

definition strokeText :: "string \<Rightarrow> real \<Rightarrow> real \<Rightarrow> canvas \<Rightarrow> canvas" where
  "strokeText t x y c = c\<lparr>bitmap := bitmap c @ [StrokeText (ctx c) t x y]\<rparr>"

definition fillText :: "string \<Rightarrow> real \<Rightarrow> real \<Rightarrow> canvas \<Rightarrow> canvas" where
  "fillText t x y c = c\<lparr>bitmap := bitmap c @ [FillText (ctx c) t x y]\<rparr>"

definition set_textBaseline :: "string \<Rightarrow> canvas \<Rightarrow> canvas" where
  "set_textBaseline v c = c\<lparr>ctx := (ctx c)\<lparr>textBaseline := v\<rparr>\<rparr>"

subsection \<open>The render effect\<close>

definition maxDim :: nat where
  "maxDim = 600"

text \<open>Aspect-ratio fit of the image's natural size within \<open>maxDim\<close>.\<close>

definition scale_dims :: "nat \<Rightarrow> nat \<Rightarrow> nat \<times> nat" where
  "scale_dims w h =
     (if w > maxDim \<or> h > maxDim then
        (if w > h then (maxDim, nat (Math_round (real (h * maxDim) / real w)))
         else (nat (Math_round (real (w * maxDim) / real h)), maxDim))
      else (w, h))"

text \<open>\<open>s.split(sep)\<close> for a one-character separator: empty pieces are kept.\<close>

fun split :: "char \<Rightarrow> string \<Rightarrow> string list" where
  "split sep [] = [[]]"
| "split sep (x # xs) =
     (if x = sep then [] # split sep xs
      else (case split sep xs of
              [] \<Rightarrow> [[x]]
            | piece # pieces \<Rightarrow> (x # piece) # pieces))"

text \<open>
  The wrapping loop over \<open>words[n]\<close>, \<open>n = 0, 1, ...\<close>: the state is the current
  \<open>line\<close> and \<open>lineArray\<close>; \<open>m\<close> is the measured width and \<open>budget\<close> is
  \<open>width - 40\<close>.
\<close>

fun wrap_loop ::
  "(string \<Rightarrow> real) \<Rightarrow> real \<Rightarrow> nat \<Rightarrow> string list \<Rightarrow> string \<times> string list
     \<Rightarrow> string \<times> string list" where
  "wrap_loop m budget n [] (line, lineArray) = (line, lineArray)"
| "wrap_loop m budget n (w # ws) (line, lineArray) =
     (let testLine = line @ w @ '' '';
          testWidth = m testLine
      in if testWidth > budget \<and> n > 0
         then wrap_loop m budget (Suc n) ws (w @ '' '', lineArray @ [line])
         else wrap_loop m budget (Suc n) ws (testLine, lineArray))"

definition wrap_caption :: "(string \<Rightarrow> real) \<Rightarrow> nat \<Rightarrow> string \<Rightarrow> string list" where
  "wrap_caption m w caption =
     (let words = split (CHR '' '') caption;
          (line, lineArray) = wrap_loop m (real w - 40) 0 words ([], [])
      in lineArray @ [line])"

text \<open>\<open>lineArray.forEach((l, i) => ...)\<close>, from index \<open>i\<close> on.\<close>

fun draw_lines ::
  "browser \<Rightarrow> real \<Rightarrow> real \<Rightarrow> int \<Rightarrow> nat \<Rightarrow> string list \<Rightarrow> canvas \<Rightarrow> canvas" where
  "draw_lines b x y fontSize i [] c = c"
| "draw_lines b x y fontSize i (l # ls) c =
     draw_lines b x y fontSize (Suc i) ls
       (fillText (toUpperCase b l) x (y + real i * real_of_int fontSize * (11 / 10))
         (strokeText (toUpperCase b l) x (y + real i * real_of_int fontSize * (11 / 10)) c))"

text \<open>
  The body of \<open>img.onload\<close>, for the image \<open>src\<close> of natural size \<open>iw\<close> by
  \<open>ih\<close>. (\<open>lines = displayText.split('\n')\<close> is never read and is left out.)
\<close>

definition img_onload ::
  "browser \<Rightarrow> app_state \<Rightarrow> string \<Rightarrow> nat \<Rightarrow> nat \<Rightarrow> canvas \<Rightarrow> canvas" where
  "img_onload b s src iw ih c0 =
     (let (w, h) = scale_dims iw ih;
          c1 = set_canvas_height h (set_canvas_width w c0);
          c2 = drawImage src 0 0 (real w) (real h) c1
      in if mode s = CAPTION then
           (let displayText =
                  (if selectedCaption s \<noteq> [] then selectedCaption s
                   else topText s @
                     (if bottomText s \<noteq> [] then CHR 0x0A # bottomText s else []))
            in if displayText \<noteq> [] then
                 (let fontSize = Math_floor (real w / 10);
                      c3 = c2\<lparr>ctx :=
                             \<lparr>font = \<lparr>weight = 900, px = fontSize,
                                      family = ''Impact, sans-serif''\<rparr>,
                              fillStyle = ''white'',
                              strokeStyle = ''black'',
                              lineWidth = Math_floor (real_of_int fontSize / 8),
                              textAlign = ''center'',
                              textBaseline = ''top''\<rparr>\<rparr>
                  in if topText s \<noteq> [] \<or> bottomText s \<noteq> [] then
                       (let c4 = (if topText s \<noteq> [] then
                                    fillText (toUpperCase b (topText s)) (real w / 2) 10
                                      (strokeText (toUpperCase b (topText s)) (real w / 2) 10 c3)
                                  else c3)
                        in if bottomText s \<noteq> [] then
                             fillText (toUpperCase b (bottomText s)) (real w / 2) (real h - 10)
                               (strokeText (toUpperCase b (bottomText s)) (real w / 2)
                                  (real h - 10) (set_textBaseline ''bottom'' c4))
                           else c4)
                     else if selectedCaption s \<noteq> [] then
                       (let lineArray =
                              wrap_caption (measureText b (font (ctx c3))) w (selectedCaption s);
                            c4 = set_textBaseline ''bottom'' c3;
                            y = real h - 20 - (real (length lineArray) - 1) * real_of_int fontSize
                        in draw_lines b (real w / 2) y fontSize 0 lineArray c4)
                     else c3)
               else c2)
         else c2)"

text \<open>
  The effect itself: it returns early without an image, a mounted canvas or a 2d
  context, and draws only once the image has loaded.
\<close>

definition render_effect :: "browser \<Rightarrow> app_state \<Rightarrow> canvas option \<Rightarrow> canvas option" where
  "render_effect b s canvasRef =
     (case (imageSrc s, canvasRef) of
        (Some src, Some c) \<Rightarrow>
          if src = [] then canvasRef
          else if \<not> supports2d c then canvasRef
          else (case decode b src of
                  None \<Rightarrow> canvasRef
                | Some (iw, ih) \<Rightarrow> Some (img_onload b s src iw ih c))
      | _ \<Rightarrow> canvasRef)"

section \<open>Notions used in the statements\<close>

text \<open>A line made of whole words: every word is followed by one space.\<close>

definition join_words :: "string list \<Rightarrow> string" where
  "join_words g = concat (map (\<lambda>w. w @ '' '') g)"

text \<open>The drawing calls that \<open>draw_lines\<close> makes under the context \<open>cx\<close>.\<close>

fun line_ops ::
  "browser \<Rightarrow> context2d \<Rightarrow> real \<Rightarrow> real \<Rightarrow> int \<Rightarrow> nat \<Rightarrow> string list \<Rightarrow> draw_op list" where
  "line_ops b cx x y fontSize i [] = []"
| "line_ops b cx x y fontSize i (l # ls) =
     StrokeText cx (toUpperCase b l) x (y + real i * real_of_int fontSize * (11 / 10))
     # FillText cx (toUpperCase b l) x (y + real i * real_of_int fontSize * (11 / 10))
     # line_ops b cx x y fontSize (Suc i) ls"

text \<open>The text and the position of every \<open>strokeText\<close> call of a bitmap, in order.\<close>

fun stroke_calls :: "draw_op list \<Rightarrow> (string \<times> real \<times> real) list" where
  "stroke_calls [] = []"
| "stroke_calls (StrokeText cx t x y # ops) = (t, x, y) # stroke_calls ops"
| "stroke_calls (_ # ops) = stroke_calls ops"

fun is_text :: "draw_op \<Rightarrow> bool" where
  "is_text (DrawImage img x y w h) = False"
| "is_text (StrokeText cx t x y) = True"
| "is_text (FillText cx t x y) = True"

text \<open>
  Every text call of the bitmap belongs to a run that is stroked and then filled, at the
  same place and under the same context, with font size \<open>fs\<close>, stroke width \<open>lw\<close>, a
  black stroke and a white fill.
\<close>

fun styled_runs :: "int \<Rightarrow> int \<Rightarrow> draw_op list \<Rightarrow> bool" where
  "styled_runs fs lw [] = True"
| "styled_runs fs lw (DrawImage img x y w h # ops) = styled_runs fs lw ops"
| "styled_runs fs lw (StrokeText cx t x y # FillText cx' t' x' y' # ops) =
     (cx' = cx \<and> t' = t \<and> x' = x \<and> y' = y \<and> px (font cx) = fs \<and> lineWidth cx = lw
      \<and> strokeStyle cx = ''black'' \<and> fillStyle cx = ''white'' \<and> styled_runs fs lw ops)"
| "styled_runs fs lw ops = False"

text \<open>A context that centres text horizontally on the given baseline.\<close>

definition anchored :: "context2d \<Rightarrow> string \<Rightarrow> bool" where
  "anchored cx baseline = (textAlign cx = ''center'' \<and> textBaseline cx = baseline)"

text \<open>The slots that a failed gateway call must leave alone.\<close>

definition same_slots :: "app_state \<Rightarrow> app_state \<Rightarrow> bool" where
  "same_slots s s' =
     (imageSrc s' = imageSrc s \<and> captions s' = captions s
      \<and> selectedCaption s' = selectedCaption s \<and> topText s' = topText s
      \<and> bottomText s' = bottomText s \<and> editPrompt s' = editPrompt s
      \<and> analysis s' = analysis s \<and> mode s' = mode s)"

text \<open>Nothing of a previous image is left.\<close>

definition cleared :: "app_state \<Rightarrow> bool" where
  "cleared s =
     (captions s = [] \<and> selectedCaption s = [] \<and> topText s = [] \<and> bottomText s = []
      \<and> editPrompt s = [] \<and> analysis s = None \<and> error s = None)"

text \<open>
  A group of words that may stand as one line: it is not empty, and it fits the budget
  unless it is a single word.
\<close>

definition line_ok :: "(string \<Rightarrow> real) \<Rightarrow> real \<Rightarrow> string list \<Rightarrow> bool" where
  "line_ok m budget g = (g \<noteq> [] \<and> (m (join_words g) \<le> budget \<or> length g = 1))"

text \<open>
  The context under which the effect draws text on a surface of width \<open>w\<close>, with the
  given baseline.
\<close>

definition caption_ctx :: "nat \<Rightarrow> string \<Rightarrow> context2d" where
  "caption_ctx w baseline =
     \<lparr>font = \<lparr>weight = 900, px = Math_floor (real w / 10), family = ''Impact, sans-serif''\<rparr>,
      fillStyle = ''white'', strokeStyle = ''black'',
      lineWidth = Math_floor (real_of_int (Math_floor (real w / 10)) / 8),
      textAlign = ''center'', textBaseline = baseline\<rparr>"

subsection \<open>A concrete browser for the worked examples\<close>

text \<open>
  Upper-casing of the letters a to z, a font in which every character is half as wide
  as the font size, and an image of the given natural size.
\<close>

definition upper_char :: "char \<Rightarrow> char" where
  "upper_char ch =
     (case map_of (zip ''abcdefghijklmnopqrstuvwxyz'' ''ABCDEFGHIJKLMNOPQRSTUVWXYZ'') ch of
        None \<Rightarrow> ch
      | Some u \<Rightarrow> u)"

definition demo_browser :: "nat \<Rightarrow> nat \<Rightarrow> browser" where
  "demo_browser iw ih =
     \<lparr>decode = (\<lambda>src. Some (iw, ih)),
      measureText = (\<lambda>f t. real_of_int (px f) * real (length t) / 2),
      toUpperCase = map upper_char\<rparr>"

definition fresh_canvas :: canvas where
  "fresh_canvas =
     \<lparr>width = 300, height = 150, supports2d = True,
      ctx = \<lparr>font = \<lparr>weight = 400, px = 10, family = ''sans-serif''\<rparr>,
             fillStyle = ''#000000'', strokeStyle = ''#000000'', lineWidth = 1,
             textAlign = ''start'', textBaseline = ''alphabetic''\<rparr>,
      bitmap = []\<rparr>"

text \<open>Two sessions: manual text on an image, and a selected magic caption.\<close>

definition hello_world :: app_state where
  "hello_world =
     initial_state\<lparr>imageSrc := Some ''meme'', topText := ''HELLO'', bottomText := ''WORLD''\<rparr>"

definition one_does_not_simply :: app_state where
  "one_does_not_simply =
     initial_state\<lparr>imageSrc := Some ''meme'',
                   selectedCaption := ''one does not simply wrap text''\<rparr>"

section \<open>The session state\<close>

lemma or_default_nonempty: "d \<noteq> [] \<Longrightarrow> or_default m d \<noteq> []"
  by (cases m) auto

lemma step_exclusive:
  assumes "exclusive s"
  shows "exclusive (step s e)"
proof (cases e)
  case (TemplateEnd r)
  with assms show ?thesis
    by (cases r) (simp_all add: exclusive_def resetState_def)
next
  case (MagicEnd r)
  with assms show ?thesis
    by (cases r) (simp_all add: exclusive_def)
next
  case (EditEnd r)
  with assms show ?thesis
    by (cases r) (simp_all add: exclusive_def)
next
  case (AnalyzeEnd r)
  with assms show ?thesis
    by (cases r) (simp_all add: exclusive_def)
qed (use assms in \<open>auto simp: exclusive_def handleFileUpload_def resetState_def
        selectTemplate_begin_def handleMagicCaption_begin_def handleEditImage_begin_def
        handleAnalyzeImage_begin_def suggestion_onClick_def topText_onChange_def
        bottomText_onChange_def editPrompt_onChange_def\<close>)

lemma foldl_step_exclusive: "exclusive s \<Longrightarrow> exclusive (foldl step s es)"
  by (induction es arbitrary: s) (simp_all add: step_exclusive)

text \<open>
  Claim C6. Clicking a suggestion sets the selected caption and empties both manual
  strings; changing either manual string empties the selected caption. Hence after any
  sequence of events, starting from the initial session, at most one of the two caption
  representations is non-empty.
\<close>

theorem caption_mutual_exclusion:
  "selectedCaption (suggestion_onClick cap s) = caption_text cap
   \<and> topText (suggestion_onClick cap s) = []
   \<and> bottomText (suggestion_onClick cap s) = []
   \<and> topText (topText_onChange v s) = v
   \<and> selectedCaption (topText_onChange v s) = []
   \<and> bottomText (bottomText_onChange v s) = v
   \<and> selectedCaption (bottomText_onChange v s) = []
   \<and> exclusive (run es)"
proof -
  have "exclusive initial_state"
    by (simp add: exclusive_def initial_state_def)
  then have "exclusive (run es)"
    unfolding run_def by (rule foldl_step_exclusive)
  then show ?thesis
    by (simp add: suggestion_onClick_def topText_onChange_def bottomText_onChange_def)
qed

theorem caption_mutual_exclusion_witness:
  "exclusive (run [FileLoaded (Some ''meme''), ChangeTop ''HELLO'', MagicBegin,
                   MagicEnd (Inr [\<lparr>caption_text = ''so true'', category = Funny\<rparr>]),
                   ClickSuggestion 0])
   \<and> selectedCaption (run [FileLoaded (Some ''meme''), ChangeTop ''HELLO'', MagicBegin,
                   MagicEnd (Inr [\<lparr>caption_text = ''so true'', category = Funny\<rparr>]),
                   ClickSuggestion 0]) = ''so true''
   \<and> topText (run [FileLoaded (Some ''meme''), ChangeTop ''HELLO'', MagicBegin,
                   MagicEnd (Inr [\<lparr>caption_text = ''so true'', category = Funny\<rparr>]),
                   ClickSuggestion 0]) = []"
  using caption_mutual_exclusion
    [where es = "[FileLoaded (Some ''meme''), ChangeTop ''HELLO'', MagicBegin,
                  MagicEnd (Inr [\<lparr>caption_text = ''so true'', category = Funny\<rparr>]),
                  ClickSuggestion 0]"]
  by (simp add: run_def initial_state_def handleFileUpload_def resetState_def
      topText_onChange_def handleMagicCaption_begin_def suggestion_onClick_def)

text \<open>
  Claim C8. When a gateway call fails, the completion of its handler leaves the image,
  the captions list, the selected caption, the top and bottom text, the edit prompt and
  the analysis result as they were, sets a non-empty error message, and clears the busy
  flag; the busy flag is cleared after a success as well. This holds for the completion
  step from any state, and for a handler that runs from its guard to its end.
\<close>

theorem gateway_failure_atomic:
  "same_slots s1 (handleMagicCaption_end (Inl msg) s1)
   \<and> same_slots s1 (handleEditImage_end (Inl msg) s1)
   \<and> same_slots s1 (handleAnalyzeImage_end (Inl msg) s1)
   \<and> error (handleMagicCaption_end (Inl msg) s1)
       = Some (or_default msg ''Failed to generate captions'')
   \<and> error (handleEditImage_end (Inl msg) s1) = Some (or_default msg ''Failed to edit image'')
   \<and> error (handleAnalyzeImage_end (Inl msg) s1)
       = Some (or_default msg ''Failed to analyze image'')
   \<and> or_default msg ''Failed to generate captions'' \<noteq> []
   \<and> or_default msg ''Failed to edit image'' \<noteq> []
   \<and> or_default msg ''Failed to analyze image'' \<noteq> []
   \<and> \<not> isLoading (handleMagicCaption_end oc s1)
   \<and> \<not> isLoading (handleEditImage_end oe s1)
   \<and> \<not> isLoading (handleAnalyzeImage_end oa s1)
   \<and> (truthy (imageSrc s) \<longrightarrow>
        same_slots s (handleMagicCaption (Inl msg) s)
        \<and> error (handleMagicCaption (Inl msg) s)
            = Some (or_default msg ''Failed to generate captions'')
        \<and> \<not> isLoading (handleMagicCaption oc s)
        \<and> same_slots s (handleAnalyzeImage (Inl msg) s)
        \<and> error (handleAnalyzeImage (Inl msg) s)
            = Some (or_default msg ''Failed to analyze image'')
        \<and> \<not> isLoading (handleAnalyzeImage oa s))
   \<and> (truthy (imageSrc s) \<and> editPrompt s \<noteq> [] \<longrightarrow>
        same_slots s (handleEditImage (Inl msg) s)
        \<and> error (handleEditImage (Inl msg) s) = Some (or_default msg ''Failed to edit image'')
        \<and> \<not> isLoading (handleEditImage oe s))"
proof -
  have e1: "\<not> isLoading (handleMagicCaption_end oc t)" for t
    by (cases oc) simp_all
  have e2: "\<not> isLoading (handleEditImage_end oe t)" for t
    by (cases oe) simp_all
  have e3: "\<not> isLoading (handleAnalyzeImage_end oa t)" for t
    by (cases oa) simp_all
  show ?thesis
    by (simp add: e1 e2 e3 same_slots_def or_default_nonempty handleMagicCaption_def
        handleMagicCaption_begin_def handleEditImage_def handleEditImage_begin_def
        handleAnalyzeImage_def handleAnalyzeImage_begin_def)
qed

theorem gateway_failure_atomic_witness:
  "truthy (imageSrc (hello_world\<lparr>editPrompt := ''add a cat''\<rparr>))
   \<and> editPrompt (hello_world\<lparr>editPrompt := ''add a cat''\<rparr>) \<noteq> []
   \<and> handleEditImage (Inl (Some ''quota exceeded'')) (hello_world\<lparr>editPrompt := ''add a cat''\<rparr>)
       = hello_world\<lparr>editPrompt := ''add a cat'', error := Some ''quota exceeded''\<rparr>
   \<and> handleMagicCaption (Inl None) hello_world
       = hello_world\<lparr>error := Some ''Failed to generate captions''\<rparr>
   \<and> \<not> isLoading (handleEditImage (Inr ''edited'') (hello_world\<lparr>editPrompt := ''add a cat''\<rparr>))"
  using gateway_failure_atomic
    [where s = "hello_world\<lparr>editPrompt := ''add a cat''\<rparr>" and msg = "Some ''quota exceeded''"
       and oe = "Inr ''edited''"]
  by (simp add: hello_world_def initial_state_def handleEditImage_def handleEditImage_begin_def
      handleMagicCaption_def handleMagicCaption_begin_def)

text \<open>
  Claim C9. A successful image load, from a local file or from a template, stores the
  new image and empties the captions list, the selected caption, the top and bottom
  text, the edit prompt, the analysis result and the displayed error.
\<close>

theorem loader_full_reset:
  "(truthy (Some r) \<longrightarrow>
      imageSrc (handleFileUpload (Some r) s) = Some r \<and> cleared (handleFileUpload (Some r) s))
   \<and> imageSrc (selectTemplate_end (Inr (Some r)) s) = Some r
   \<and> cleared (selectTemplate_end (Inr (Some r)) s)
   \<and> \<not> isLoading (selectTemplate_end (Inr (Some r)) s)
   \<and> imageSrc (selectTemplate (Inr (Some r)) s) = Some r
   \<and> cleared (selectTemplate (Inr (Some r)) s)
   \<and> \<not> isLoading (selectTemplate (Inr (Some r)) s)"
  by (simp add: handleFileUpload_def selectTemplate_def selectTemplate_begin_def
      resetState_def cleared_def)

theorem loader_full_reset_witness:
  "truthy (Some ''cat'')
   \<and> handleFileUpload (Some ''cat'')
        (one_does_not_simply\<lparr>editPrompt := ''add a cat'', error := Some ''quota exceeded''\<rparr>)
       = initial_state\<lparr>imageSrc := Some ''cat''\<rparr>
   \<and> selectTemplate (Inr (Some ''cat'')) hello_world = initial_state\<lparr>imageSrc := Some ''cat''\<rparr>"
  using loader_full_reset
    [where r = "''cat''"
       and s = "one_does_not_simply\<lparr>editPrompt := ''add a cat'', error := Some ''quota exceeded''\<rparr>"]
  by (simp add: handleFileUpload_def selectTemplate_def selectTemplate_begin_def resetState_def
      hello_world_def one_does_not_simply_def initial_state_def)

section \<open>Scaling the surface\<close>

lemma Math_round_eq: "Math_round x = round x"
  by (simp add: Math_round_def round_def)

lemma round_scaled_bounds:
  fixes a b :: nat
  assumes "a \<le> b" and "0 < b"
  shows "0 \<le> round (real (a * maxDim) / real b)"
    and "round (real (a * maxDim) / real b) \<le> int maxDim"
    and "maxDim \<le> b \<Longrightarrow> round (real (a * maxDim) / real b) \<le> int a"
proof -
  let ?x = "real (a * maxDim) / real b"
  have "0 \<le> ?x" by simp
  then have "round (0::real) \<le> round ?x" by (rule round_mono)
  then show "0 \<le> round ?x" by simp
  have "a * maxDim \<le> maxDim * b"
    using assms(1) by (simp add: mult.commute)
  then have "real (a * maxDim) \<le> real (maxDim * b)"
    by (rule of_nat_mono)
  then have "real (a * maxDim) \<le> real maxDim * real b"
    by simp
  then have "?x \<le> real maxDim"
    using assms(2) by (simp add: divide_le_eq)
  then have "round ?x \<le> round (real maxDim)" by (rule round_mono)
  then show "round ?x \<le> int maxDim" by simp
  assume "maxDim \<le> b"
  then have "a * maxDim \<le> a * b"
    by (rule mult_le_mono2)
  then have "real (a * maxDim) \<le> real (a * b)"
    by (rule of_nat_mono)
  then have "real (a * maxDim) \<le> real a * real b"
    by simp
  then have "?x \<le> real a"
    using assms(2) by (simp add: divide_le_eq)
  then have "round ?x \<le> round (real a)" by (rule round_mono)
  then show "round ?x \<le> int a" by simp
qed

lemma scale_dims_wide:
  assumes "h < w" and "maxDim < w"
  shows "scale_dims w h = (maxDim, nat (round (real (h * maxDim) / real w)))"
  using assms by (simp add: scale_dims_def Math_round_eq)

lemma scale_dims_tall:
  assumes "w \<le> h" and "maxDim < h"
  shows "scale_dims w h = (nat (round (real (w * maxDim) / real h)), maxDim)"
  using assms by (auto simp add: scale_dims_def Math_round_eq)

lemma scale_dims_small:
  assumes "w \<le> maxDim" and "h \<le> maxDim"
  shows "scale_dims w h = (w, h)"
  using assms by (simp add: scale_dims_def)

lemma scale_800_400: "scale_dims 800 400 = (600, 300)"
  by (simp add: scale_dims_def maxDim_def Math_round_def)

lemma scale_600_600: "scale_dims 600 600 = (600, 600)"
  by (simp add: scale_dims_def maxDim_def)

text \<open>
  Claim C3. For an image of natural size \<open>w\<close> by \<open>h\<close>: when \<open>w \<ge> h\<close> and
  \<open>w > 600\<close> the surface is 600 wide and \<open>round (h * 600 / w)\<close> high, and
  symmetrically when \<open>h \<ge> w\<close> and \<open>h > 600\<close>; when neither dimension exceeds 600
  the surface has the image's own size; whenever a dimension exceeds 600 the larger
  dimension of the surface is 600; and no dimension ever grows. Here \<open>round\<close> is
  rounding to the nearest integer, halves upwards.
\<close>

theorem scale_dims_spec:
  "(h \<le> w \<and> 600 < w \<longrightarrow>
      fst (scale_dims w h) = 600
      \<and> int (snd (scale_dims w h)) = round (real (h * 600) / real w))
   \<and> (w \<le> h \<and> 600 < h \<longrightarrow>
      snd (scale_dims w h) = 600
      \<and> int (fst (scale_dims w h)) = round (real (w * 600) / real h))
   \<and> (w \<le> 600 \<and> h \<le> 600 \<longrightarrow> scale_dims w h = (w, h))
   \<and> (600 < w \<or> 600 < h \<longrightarrow> max (fst (scale_dims w h)) (snd (scale_dims w h)) = 600)
   \<and> fst (scale_dims w h) \<le> w \<and> snd (scale_dims w h) \<le> h"
proof -
  consider (small) "w \<le> maxDim" "h \<le> maxDim"
    | (wide) "h < w" "maxDim < w"
    | (tall) "w \<le> h" "maxDim < h"
    by linarith
  then have
    "(h \<le> w \<and> maxDim < w \<longrightarrow>
        fst (scale_dims w h) = maxDim
        \<and> int (snd (scale_dims w h)) = round (real (h * maxDim) / real w))
     \<and> (w \<le> h \<and> maxDim < h \<longrightarrow>
        snd (scale_dims w h) = maxDim
        \<and> int (fst (scale_dims w h)) = round (real (w * maxDim) / real h))
     \<and> (w \<le> maxDim \<and> h \<le> maxDim \<longrightarrow> scale_dims w h = (w, h))
     \<and> (maxDim < w \<or> maxDim < h \<longrightarrow>
        max (fst (scale_dims w h)) (snd (scale_dims w h)) = maxDim)
     \<and> fst (scale_dims w h) \<le> w \<and> snd (scale_dims w h) \<le> h"
  proof cases
    case small
    then show ?thesis by (simp add: scale_dims_small)
  next
    case wide
    then have b: "h \<le> w" "0 < w" "maxDim \<le> w" by simp_all
    note r = round_scaled_bounds [OF b(1) b(2)]
    from r(1) r(2) r(3) [OF b(3)] wide show ?thesis
      by (simp add: scale_dims_wide nat_le_iff)
  next
    case tall
    then have b: "w \<le> h" "0 < h" "maxDim \<le> h" by simp_all
    note r = round_scaled_bounds [OF b(1) b(2)]
    show ?thesis
    proof (cases "w = h")
      case True
      with tall show ?thesis by (simp add: scale_dims_tall)
    next
      case False
      with r(1) r(2) r(3) [OF b(3)] tall show ?thesis
        by (simp add: scale_dims_tall nat_le_iff)
    qed
  qed
  then show ?thesis by (simp add: maxDim_def)
qed

theorem scale_dims_spec_witness:
  "(400::nat) \<le> 800 \<and> (600::nat) < 800 \<and> scale_dims 800 400 = (600, 300)
   \<and> round (real (400 * 600) / real 800) = (300::int)
   \<and> (700::nat) \<le> 1000 \<and> (600::nat) < 1000 \<and> scale_dims 700 1000 = (420, 600)
   \<and> (600::nat) \<le> 600 \<and> (450::nat) \<le> 600 \<and> scale_dims 600 450 = (600, 450)
   \<and> scale_dims 1001 3 = (600, 2)"
  using scale_dims_spec [of 400 800] scale_dims_spec [of 1000 700] scale_dims_spec [of 450 600]
  by (simp add: scale_dims_def maxDim_def Math_round_def)

section \<open>Wrapping a magic caption\<close>

lemma split_not_Nil: "split sep s \<noteq> []"
  by (induction s) (auto split: list.splits)

lemma join_words_snoc: "join_words (g @ [x]) = join_words g @ x @ '' ''"
  by (simp add: join_words_def)

lemma join_words_single: "join_words [x] = x @ '' ''"
  by (simp add: join_words_def)

lemma join_words_Nil: "join_words [] = []"
  by (simp add: join_words_def)

text \<open>
  The invariant of the loop: the lines pushed so far and the current line are groups of
  whole words, each acceptable, and together they are the words read so far. Before the
  first word the current line is empty.
\<close>

lemma wrap_loop_groups:
  assumes "\<forall>g \<in> set acc. line_ok m budget g"
    and "0 < n \<Longrightarrow> line_ok m budget cur"
    and "n = 0 \<Longrightarrow> cur = []"
    and "0 < n + length ws"
  shows "\<exists>cur' acc'.
           wrap_loop m budget n ws (join_words cur, map join_words acc)
             = (join_words cur', map join_words acc')
         \<and> concat (acc' @ [cur']) = concat (acc @ [cur]) @ ws
         \<and> (\<forall>g \<in> set (acc' @ [cur']). line_ok m budget g)"
  using assms
proof (induction ws arbitrary: n cur acc)
  case Nil
  then show ?case by auto
next
  case (Cons x ws)
  show ?case
  proof (cases "budget < m (join_words cur @ x @ '' '') \<and> 0 < n")
    case True
    then have cur: "line_ok m budget cur" using Cons.prems(2) by simp
    have "\<exists>cur' acc'.
           wrap_loop m budget (Suc n) ws (join_words [x], map join_words (acc @ [cur]))
             = (join_words cur', map join_words acc')
         \<and> concat (acc' @ [cur']) = concat ((acc @ [cur]) @ [[x]]) @ ws
         \<and> (\<forall>g \<in> set (acc' @ [cur']). line_ok m budget g)"
      using Cons.prems(1) cur
      by (intro Cons.IH) (auto simp: line_ok_def)
    moreover from True
    have "wrap_loop m budget n (x # ws) (join_words cur, map join_words acc)
            = wrap_loop m budget (Suc n) ws (join_words [x], map join_words (acc @ [cur]))"
      by (simp add: join_words_single Let_def)
    ultimately show ?thesis
      by simp
  next
    case False
    have ok: "line_ok m budget (cur @ [x])"
    proof (cases "n = 0")
      case True
      then show ?thesis using Cons.prems(3) by (simp add: line_ok_def)
    next
      case False
      with \<open>\<not> (budget < m (join_words cur @ x @ '' '') \<and> 0 < n)\<close>
      show ?thesis by (simp add: line_ok_def join_words_snoc)
    qed
    have "\<exists>cur' acc'.
           wrap_loop m budget (Suc n) ws (join_words (cur @ [x]), map join_words acc)
             = (join_words cur', map join_words acc')
         \<and> concat (acc' @ [cur']) = concat (acc @ [cur @ [x]]) @ ws
         \<and> (\<forall>g \<in> set (acc' @ [cur']). line_ok m budget g)"
      using Cons.prems(1) ok
      by (intro Cons.IH) auto
    moreover from False
    have "wrap_loop m budget n (x # ws) (join_words cur, map join_words acc)
            = wrap_loop m budget (Suc n) ws (join_words (cur @ [x]), map join_words acc)"
      by (auto simp: join_words_snoc Let_def)
    ultimately show ?thesis
      by simp
  qed
qed

lemma join_words_mono:
  assumes mono: "\<forall>a b c. m b \<le> m (a @ b @ c)" and "x \<in> set g"
  shows "m (x @ '' '') \<le> m (join_words g)"
proof -
  from \<open>x \<in> set g\<close> obtain g1 g2 where "g = g1 @ x # g2"
    by (auto simp: in_set_conv_decomp)
  then have eq: "join_words g = join_words g1 @ (x @ '' '') @ join_words g2"
    by (simp add: join_words_def)
  from mono have "m (x @ '' '') \<le> m (join_words g1 @ (x @ '' '') @ join_words g2)"
    by blast
  then show ?thesis unfolding eq .
qed

text \<open>
  Claim C1. The lines of a wrapped magic caption are groups of the caption's words, in
  order, every word whole and followed by a space; the words are the pieces of the
  caption between spaces. The measured width of a line is at most \<open>width - 40\<close>
  unless the line is a single word. Widths are those the loop measures: of the line
  with its trailing space, before upper-casing. When the measured width never shrinks
  as text is added on either side, a word that measures more than \<open>width - 40\<close> by
  itself stands alone on its line.
\<close>

theorem wrap_caption_lines:
  "\<exists>groups.
     concat groups = split (CHR '' '') caption
     \<and> wrap_caption m w caption = map join_words groups
     \<and> (\<forall>g \<in> set groups. g \<noteq> [] \<and> (m (join_words g) \<le> real w - 40 \<or> length g = 1))
     \<and> ((\<forall>a b c. m b \<le> m (a @ b @ c)) \<longrightarrow>
          (\<forall>g \<in> set groups. \<forall>x \<in> set g. real w - 40 < m (x @ '' '') \<longrightarrow> g = [x]))"
proof -
  let ?ws = "split (CHR '' '') caption"
  have "0 < 0 + length ?ws" using split_not_Nil [of "CHR '' ''" caption] by simp
  with wrap_loop_groups [of "[]" m "real w - 40" 0 "[]" ?ws]
  obtain cur' acc' where
    loop: "wrap_loop m (real w - 40) 0 ?ws ([], []) = (join_words cur', map join_words acc')"
    and words: "concat (acc' @ [cur']) = ?ws"
    and ok: "\<forall>g \<in> set (acc' @ [cur']). line_ok m (real w - 40) g"
    by (auto simp: join_words_Nil)
  let ?groups = "acc' @ [cur']"
  have lines: "wrap_caption m w caption = map join_words ?groups"
    by (simp add: wrap_caption_def loop)
  have alone: "g = [x]"
    if mono: "\<forall>a b c. m b \<le> m (a @ b @ c)" and g: "g \<in> set ?groups" and x: "x \<in> set g"
      and long: "real w - 40 < m (x @ '' '')" for g x
  proof -
    have "m (x @ '' '') \<le> m (join_words g)" using mono x by (rule join_words_mono)
    with long have "\<not> m (join_words g) \<le> real w - 40" by simp
    moreover have "line_ok m (real w - 40) g" using ok g by blast
    ultimately have "length g = 1" by (simp add: line_ok_def)
    with x show ?thesis by (cases g) auto
  qed
  show ?thesis
  proof (intro exI [of _ ?groups] conjI)
    show "concat ?groups = ?ws" by (rule words)
    show "wrap_caption m w caption = map join_words ?groups" by (rule lines)
    show "\<forall>g \<in> set ?groups. g \<noteq> [] \<and> (m (join_words g) \<le> real w - 40 \<or> length g = 1)"
      using ok by (simp add: line_ok_def)
    show "(\<forall>a b c. m b \<le> m (a @ b @ c)) \<longrightarrow>
          (\<forall>g \<in> set ?groups. \<forall>x \<in> set g. real w - 40 < m (x @ '' '') \<longrightarrow> g = [x])"
      using alone by blast
  qed
qed

theorem wrap_caption_lines_witness:
  "(\<forall>a b c. 15 * real (length b) \<le> 15 * real (length (a @ b @ c)))
   \<and> real 300 - 40 < 15 * real (length (''incomprehensibilities'' @ '' ''))
   \<and> split (CHR '' '') ''no incomprehensibilities at all''
       = [''no'', ''incomprehensibilities'', ''at'', ''all'']
   \<and> wrap_caption (\<lambda>t. 15 * real (length t)) 300 ''no incomprehensibilities at all''
       = [''no '', ''incomprehensibilities '', ''at all '']"
  using wrap_caption_lines
    [where m = "\<lambda>t. 15 * real (length t)" and w = 300
       and caption = "''no incomprehensibilities at all''"]
  by (simp add: wrap_caption_def)

section \<open>The render effect\<close>

lemma draw_lines_eq:
  "draw_lines b x y fs i ls c = c\<lparr>bitmap := bitmap c @ line_ops b (ctx c) x y fs i ls\<rparr>"
  by (induction ls arbitrary: i c) (simp_all add: strokeText_def fillText_def)

lemmas canvas_ops =
  set_canvas_width_def set_canvas_height_def drawImage_def strokeText_def fillText_def
  set_textBaseline_def

text \<open>The three ways through \<open>img.onload\<close>, each with the canvas it leaves.\<close>

lemma img_onload_cases:
  obtains (plain) "mode s \<noteq> CAPTION
                   \<or> (selectedCaption s = [] \<and> topText s = [] \<and> bottomText s = [])"
    | (manual) "mode s = CAPTION" "topText s \<noteq> [] \<or> bottomText s \<noteq> []"
    | (magic) "mode s = CAPTION" "topText s = []" "bottomText s = []" "selectedCaption s \<noteq> []"
  by blast

lemma img_onload_plain:
  assumes "mode s \<noteq> CAPTION \<or> (selectedCaption s = [] \<and> topText s = [] \<and> bottomText s = [])"
  shows "img_onload b s src iw ih c =
           c\<lparr>width := fst (scale_dims iw ih), height := snd (scale_dims iw ih),
             bitmap := [DrawImage src 0 0 (real (fst (scale_dims iw ih)))
                          (real (snd (scale_dims iw ih)))]\<rparr>"
  using assms by (auto simp: img_onload_def Let_def split_def canvas_ops)

lemma img_onload_manual:
  assumes "mode s = CAPTION" and "topText s \<noteq> [] \<or> bottomText s \<noteq> []"
  shows "img_onload b s src iw ih c =
           (let w = fst (scale_dims iw ih); h = snd (scale_dims iw ih) in
            c\<lparr>width := w, height := h,
              ctx := caption_ctx w (if bottomText s \<noteq> [] then ''bottom'' else ''top''),
              bitmap :=
                DrawImage src 0 0 (real w) (real h)
                # (if topText s = [] then []
                   else [StrokeText (caption_ctx w ''top'') (toUpperCase b (topText s))
                           (real w / 2) 10,
                         FillText (caption_ctx w ''top'') (toUpperCase b (topText s))
                           (real w / 2) 10])
                @ (if bottomText s = [] then []
                   else [StrokeText (caption_ctx w ''bottom'') (toUpperCase b (bottomText s))
                           (real w / 2) (real h - 10),
                         FillText (caption_ctx w ''bottom'') (toUpperCase b (bottomText s))
                           (real w / 2) (real h - 10)])\<rparr>)"
  using assms by (auto simp: img_onload_def Let_def split_def canvas_ops caption_ctx_def)

lemma img_onload_magic:
  assumes "mode s = CAPTION" and "topText s = []" and "bottomText s = []"
    and "selectedCaption s \<noteq> []"
  shows "img_onload b s src iw ih c =
           (let w = fst (scale_dims iw ih); h = snd (scale_dims iw ih);
                fontSize = Math_floor (real w / 10);
                lineArray = wrap_caption (measureText b (font (caption_ctx w ''top''))) w
                              (selectedCaption s)
            in c\<lparr>width := w, height := h,
                 ctx := caption_ctx w ''bottom'',
                 bitmap :=
                   DrawImage src 0 0 (real w) (real h)
                   # line_ops b (caption_ctx w ''bottom'') (real w / 2)
                       (real h - 20 - (real (length lineArray) - 1) * real_of_int fontSize)
                       fontSize 0 lineArray\<rparr>)"
  using assms
  by (simp add: img_onload_def Let_def split_def canvas_ops caption_ctx_def draw_lines_eq)

lemma img_onload_width: "width (img_onload b s src iw ih c) = fst (scale_dims iw ih)"
proof (cases s rule: img_onload_cases)
  case plain then show ?thesis by (simp add: img_onload_plain)
next
  case manual then show ?thesis by (simp add: img_onload_manual Let_def)
next
  case magic then show ?thesis by (simp add: img_onload_magic Let_def)
qed

lemma img_onload_supports2d: "supports2d (img_onload b s src iw ih c) = supports2d c"
proof (cases s rule: img_onload_cases)
  case plain then show ?thesis by (simp add: img_onload_plain)
next
  case manual then show ?thesis by (simp add: img_onload_manual Let_def)
next
  case magic then show ?thesis by (simp add: img_onload_magic Let_def)
qed

subsection \<open>The two worked sessions\<close>

lemma hello_world_fields:
  "mode hello_world = CAPTION" "imageSrc hello_world = Some ''meme''"
  "topText hello_world = ''HELLO''" "bottomText hello_world = ''WORLD''"
  by (simp_all add: hello_world_def initial_state_def)

lemma hello_world_bitmap:
  "bitmap (img_onload (demo_browser 800 400) hello_world ''meme'' 800 400 fresh_canvas)
     = [DrawImage ''meme'' 0 0 600 300,
        StrokeText (caption_ctx 600 ''top'') ''HELLO'' 300 10,
        FillText (caption_ctx 600 ''top'') ''HELLO'' 300 10,
        StrokeText (caption_ctx 600 ''bottom'') ''WORLD'' 300 290,
        FillText (caption_ctx 600 ''bottom'') ''WORLD'' 300 290]"
proof -
  have m: "mode hello_world = CAPTION" "topText hello_world \<noteq> [] \<or> bottomText hello_world \<noteq> []"
    by (simp_all add: hello_world_fields)
  show ?thesis
    by (simp add: img_onload_manual [OF m] scale_800_400 hello_world_fields demo_browser_def
        upper_char_def)
qed

lemma hello_world_size:
  "width (img_onload (demo_browser 800 400) hello_world ''meme'' 800 400 fresh_canvas) = 600"
  "height (img_onload (demo_browser 800 400) hello_world ''meme'' 800 400 fresh_canvas) = 300"
proof -
  have m: "mode hello_world = CAPTION" "topText hello_world \<noteq> [] \<or> bottomText hello_world \<noteq> []"
    by (simp_all add: hello_world_fields)
  show "width (img_onload (demo_browser 800 400) hello_world ''meme'' 800 400 fresh_canvas) = 600"
    "height (img_onload (demo_browser 800 400) hello_world ''meme'' 800 400 fresh_canvas) = 300"
    by (simp_all add: img_onload_manual [OF m] scale_800_400)
qed

lemma one_does_not_simply_lines:
  "wrap_caption (\<lambda>t. 30 * real (length t)) 600 ''one does not simply wrap text''
     = [''one does not '', ''simply wrap text '']"
  by (simp add: wrap_caption_def)

lemma one_does_not_simply_canvas:
  "img_onload (demo_browser 600 600) one_does_not_simply ''meme'' 600 600 fresh_canvas
     = fresh_canvas\<lparr>width := 600, height := 600, ctx := caption_ctx 600 ''bottom'',
         bitmap := [DrawImage ''meme'' 0 0 600 600,
                    StrokeText (caption_ctx 600 ''bottom'') ''ONE DOES NOT '' 300 520,
                    FillText (caption_ctx 600 ''bottom'') ''ONE DOES NOT '' 300 520,
                    StrokeText (caption_ctx 600 ''bottom'') ''SIMPLY WRAP TEXT '' 300 586,
                    FillText (caption_ctx 600 ''bottom'') ''SIMPLY WRAP TEXT '' 300 586]\<rparr>"
proof -
  have m: "mode one_does_not_simply = CAPTION" "topText one_does_not_simply = []"
    "bottomText one_does_not_simply = []" "selectedCaption one_does_not_simply \<noteq> []"
    by (simp_all add: one_does_not_simply_def initial_state_def)
  have t: "selectedCaption one_does_not_simply = ''one does not simply wrap text''"
    by (simp add: one_does_not_simply_def)
  have f: "measureText (demo_browser 600 600) (font (caption_ctx 600 ''top''))
             = (\<lambda>t. 30 * real (length t))"
    by (simp add: demo_browser_def caption_ctx_def Math_floor_def)
  have u: "toUpperCase (demo_browser 600 600) = map upper_char"
    by (simp add: demo_browser_def)
  have fs: "Math_floor 60 = 60"
    by (simp add: Math_floor_def)
  have "img_onload (demo_browser 600 600) one_does_not_simply ''meme'' 600 600 fresh_canvas
     = fresh_canvas\<lparr>width := 600, height := 600, ctx := caption_ctx 600 ''bottom'',
         bitmap := DrawImage ''meme'' 0 0 600 600
            # line_ops (demo_browser 600 600) (caption_ctx 600 ''bottom'') 300 520 60 0
                [''one does not '', ''simply wrap text '']\<rparr>"
    by (simp add: img_onload_magic [OF m] Let_def scale_600_600 t f fs one_does_not_simply_lines)
  then show ?thesis
    by (simp add: u upper_char_def)
qed

subsection \<open>Manual captions\<close>

lemma anchored_caption_ctx: "anchored (caption_ctx w baseline) baseline"
  by (simp add: anchored_def caption_ctx_def)

text \<open>
  Claim C4, as amended: in CAPTION mode, whenever the top or the bottom string is
  non-empty, the surface holds the scaled image and then, for a non-empty top string,
  one stroke and one fill of the upper-cased string, centred, on the top baseline, 10px
  below the top edge, and for a non-empty bottom string one stroke and one fill of the
  upper-cased string, centred, on the bottom baseline, 10px above the bottom edge.
  Nothing else is drawn: each string is one line, and an empty string draws nothing.
\<close>

theorem manual_caption_placement:
  assumes "mode s = CAPTION" and "topText s \<noteq> [] \<or> bottomText s \<noteq> []"
  shows "\<exists>ct cb.
           anchored ct ''top'' \<and> anchored cb ''bottom''
           \<and> bitmap (img_onload b s src iw ih c) =
               DrawImage src 0 0 (real (fst (scale_dims iw ih))) (real (snd (scale_dims iw ih)))
               # (if topText s = [] then []
                  else [StrokeText ct (toUpperCase b (topText s))
                          (real (fst (scale_dims iw ih)) / 2) 10,
                        FillText ct (toUpperCase b (topText s))
                          (real (fst (scale_dims iw ih)) / 2) 10])
               @ (if bottomText s = [] then []
                  else [StrokeText cb (toUpperCase b (bottomText s))
                          (real (fst (scale_dims iw ih)) / 2) (real (snd (scale_dims iw ih)) - 10),
                        FillText cb (toUpperCase b (bottomText s))
                          (real (fst (scale_dims iw ih)) / 2)
                          (real (snd (scale_dims iw ih)) - 10)])"
proof (intro exI conjI)
  show "anchored (caption_ctx (fst (scale_dims iw ih)) ''top'') ''top''"
    by (rule anchored_caption_ctx)
  show "anchored (caption_ctx (fst (scale_dims iw ih)) ''bottom'') ''bottom''"
    by (rule anchored_caption_ctx)
qed (simp add: img_onload_manual [OF assms] Let_def)

theorem manual_caption_placement_witness:
  "mode (hello_world\<lparr>bottomText := []\<rparr>) = CAPTION
   \<and> topText (hello_world\<lparr>bottomText := []\<rparr>) = ''HELLO''
   \<and> stroke_calls (bitmap (img_onload (demo_browser 800 400) (hello_world\<lparr>bottomText := []\<rparr>)
                              ''meme'' 800 400 fresh_canvas))
       = [(''HELLO'', 300, 10)]"
proof -
  let ?s = "hello_world\<lparr>bottomText := []\<rparr>"
  have m: "mode ?s = CAPTION" and t: "topText ?s \<noteq> [] \<or> bottomText ?s \<noteq> []"
    by (simp_all add: hello_world_fields)
  from manual_caption_placement [OF m t, of "demo_browser 800 400" "''meme''" 800 400 fresh_canvas]
  obtain ct cb where
    "bitmap (img_onload (demo_browser 800 400) ?s ''meme'' 800 400 fresh_canvas) =
       [DrawImage ''meme'' 0 0 600 300,
        StrokeText ct (map upper_char ''HELLO'') 300 10,
        FillText ct (map upper_char ''HELLO'') 300 10]"
    by (auto simp: scale_800_400 hello_world_fields demo_browser_def)
  then show ?thesis
    by (simp add: hello_world_fields upper_char_def)
qed

text \<open>
  The claim as written has no condition on the mode. The session below is reached by
  loading an image, typing both strings and switching to the EDIT tab; both strings are
  non-empty and no text is drawn.
\<close>

theorem manual_caption_edit_mode_counterexample:
  "run [FileLoaded (Some ''meme''), ChangeTop ''HELLO'', ChangeBottom ''WORLD'', SetMode EDIT]
     = hello_world\<lparr>mode := EDIT\<rparr>
   \<and> topText (hello_world\<lparr>mode := EDIT\<rparr>) = ''HELLO''
   \<and> bottomText (hello_world\<lparr>mode := EDIT\<rparr>) = ''WORLD''
   \<and> bitmap (img_onload (demo_browser 800 400) (hello_world\<lparr>mode := EDIT\<rparr>)
               ''meme'' 800 400 fresh_canvas)
       = [DrawImage ''meme'' 0 0 600 300]"
  by (simp add: run_def hello_world_def initial_state_def handleFileUpload_def resetState_def
      topText_onChange_def bottomText_onChange_def img_onload_plain scale_800_400)

subsection \<open>Text styling\<close>

lemma Math_floor_div10: "Math_floor (real w / 10) = int (w div 10)"
  by (simp add: Math_floor_def floor_divide_of_nat_eq [of w 10, simplified])

lemma Math_floor_div8: "Math_floor (real n / 8) = int (n div 8)"
  by (simp add: Math_floor_def floor_divide_of_nat_eq [of n 8, simplified])

lemma caption_ctx_style:
  "px (font (caption_ctx w bl)) = int (w div 10)"
  "lineWidth (caption_ctx w bl) = int (w div 10 div 8)"
  "strokeStyle (caption_ctx w bl) = ''black''"
  "fillStyle (caption_ctx w bl) = ''white''"
  by (simp_all add: caption_ctx_def Math_floor_div10 Math_floor_div8)

lemma styled_runs_line_ops:
  assumes "px (font cx) = fs" and "lineWidth cx = lw"
    and "strokeStyle cx = ''black''" and "fillStyle cx = ''white''"
  shows "styled_runs fs lw (line_ops b cx x y fontSize i ls)"
  using assms by (induction ls arbitrary: i) simp_all

lemma img_onload_styled:
  "styled_runs (int (fst (scale_dims iw ih) div 10)) (int (fst (scale_dims iw ih) div 10 div 8))
     (bitmap (img_onload b s src iw ih c))"
proof (cases s rule: img_onload_cases)
  case plain then show ?thesis by (simp add: img_onload_plain)
next
  case manual then show ?thesis by (simp add: img_onload_manual Let_def caption_ctx_style)
next
  case magic then show ?thesis
    by (simp add: img_onload_magic Let_def styled_runs_line_ops caption_ctx_style)
qed

text \<open>
  Claim C5. On every rendered surface, every piece of text is stroked and then filled
  at the same place, under a font of size \<open>floor (width / 10)\<close> and a stroke width
  \<open>floor (fontSize / 8)\<close>, the stroke black and the fill white, where \<open>width\<close> is
  the width of the surface. An image of 800 by 400 with the top text HELLO and the bottom
  text WORLD gives a surface of 600 by 300 with font size 60.
\<close>

theorem caption_text_styling:
  "styled_runs (int (width (img_onload b s src iw ih c) div 10))
     (int (width (img_onload b s src iw ih c) div 10 div 8))
     (bitmap (img_onload b s src iw ih c))
   \<and> width (img_onload (demo_browser 800 400) hello_world ''meme'' 800 400 fresh_canvas) = 600
   \<and> height (img_onload (demo_browser 800 400) hello_world ''meme'' 800 400 fresh_canvas) = 300
   \<and> styled_runs 60 7
       (bitmap (img_onload (demo_browser 800 400) hello_world ''meme'' 800 400 fresh_canvas))
   \<and> stroke_calls
       (bitmap (img_onload (demo_browser 800 400) hello_world ''meme'' 800 400 fresh_canvas))
       = [(''HELLO'', 300, 10), (''WORLD'', 300, 290)]"
proof -
  have st: "styled_runs 60 7
       (bitmap (img_onload (demo_browser 800 400) hello_world ''meme'' 800 400 fresh_canvas))"
    unfolding hello_world_bitmap by (simp add: caption_ctx_style)
  have sc: "stroke_calls
       (bitmap (img_onload (demo_browser 800 400) hello_world ''meme'' 800 400 fresh_canvas))
       = [(''HELLO'', 300, 10), (''WORLD'', 300, 290)]"
    unfolding hello_world_bitmap by simp
  have g: "styled_runs (int (width (img_onload b s src iw ih c) div 10))
     (int (width (img_onload b s src iw ih c) div 10 div 8))
     (bitmap (img_onload b s src iw ih c))"
    unfolding img_onload_width by (rule img_onload_styled)
  from g hello_world_size st sc show ?thesis by (intro conjI)
qed

theorem caption_text_styling_witness:
  "width (img_onload (demo_browser 600 600) one_does_not_simply ''meme'' 600 600 fresh_canvas)
     = 600
   \<and> styled_runs 60 7
       (bitmap (img_onload (demo_browser 600 600) one_does_not_simply ''meme'' 600 600
                  fresh_canvas))
   \<and> length (stroke_calls
       (bitmap (img_onload (demo_browser 600 600) one_does_not_simply ''meme'' 600 600
                  fresh_canvas))) = 2"
  using caption_text_styling
    [of "demo_browser 600 600" one_does_not_simply "''meme''" 600 600 fresh_canvas]
  by (simp add: one_does_not_simply_canvas)

subsection \<open>The mode gate\<close>

text \<open>
  Claim C10. In EDIT or ANALYZE mode the effect leaves the plain scaled image on the
  canvas, whatever the top text, the bottom text and the selected caption are; a bitmap
  with any text on it was drawn in CAPTION mode.
\<close>

theorem mode_gated_rendering:
  "(imageSrc s = Some src \<and> src \<noteq> [] \<and> supports2d c \<and> decode b src = Some (iw, ih)
      \<and> mode s \<noteq> CAPTION \<longrightarrow>
      render_effect b s (Some c) =
        Some (c\<lparr>width := fst (scale_dims iw ih), height := snd (scale_dims iw ih),
                bitmap := [DrawImage src 0 0 (real (fst (scale_dims iw ih)))
                             (real (snd (scale_dims iw ih)))]\<rparr>))
   \<and> ((\<exists>op \<in> set (bitmap (img_onload b s src iw ih c)). is_text op) \<longrightarrow> mode s = CAPTION)"
proof (intro conjI impI)
  assume "imageSrc s = Some src \<and> src \<noteq> [] \<and> supports2d c \<and> decode b src = Some (iw, ih)
      \<and> mode s \<noteq> CAPTION"
  then show "render_effect b s (Some c) =
        Some (c\<lparr>width := fst (scale_dims iw ih), height := snd (scale_dims iw ih),
                bitmap := [DrawImage src 0 0 (real (fst (scale_dims iw ih)))
                             (real (snd (scale_dims iw ih)))]\<rparr>)"
    by (simp add: render_effect_def img_onload_plain)
next
  assume t: "\<exists>op \<in> set (bitmap (img_onload b s src iw ih c)). is_text op"
  show "mode s = CAPTION"
  proof (rule ccontr)
    assume "mode s \<noteq> CAPTION"
    then have "bitmap (img_onload b s src iw ih c)
                 = [DrawImage src 0 0 (real (fst (scale_dims iw ih)))
                      (real (snd (scale_dims iw ih)))]"
      by (simp add: img_onload_plain)
    with t show False by simp
  qed
qed

theorem mode_gated_rendering_witness:
  "imageSrc (hello_world\<lparr>mode := ANALYZE\<rparr>) = Some ''meme''
   \<and> supports2d fresh_canvas
   \<and> decode (demo_browser 800 400) ''meme'' = Some (800, 400)
   \<and> mode (hello_world\<lparr>mode := ANALYZE\<rparr>) \<noteq> CAPTION
   \<and> topText (hello_world\<lparr>mode := ANALYZE\<rparr>) = ''HELLO''
   \<and> render_effect (demo_browser 800 400) (hello_world\<lparr>mode := ANALYZE\<rparr>) (Some fresh_canvas)
       = Some (fresh_canvas\<lparr>width := 600, height := 300,
                 bitmap := [DrawImage ''meme'' 0 0 600 300]\<rparr>)
   \<and> is_text (bitmap (img_onload (demo_browser 800 400) hello_world ''meme'' 800 400
                          fresh_canvas) ! 1)
   \<and> mode hello_world = CAPTION"
proof -
  have d: "decode (demo_browser 800 400) ''meme'' = Some (800, 400)"
    by (simp add: demo_browser_def)
  have f: "supports2d fresh_canvas"
    by (simp add: fresh_canvas_def)
  show ?thesis
    using mode_gated_rendering
      [of "hello_world\<lparr>mode := ANALYZE\<rparr>" "''meme''" fresh_canvas "demo_browser 800 400"
          800 400]
      mode_gated_rendering
      [of hello_world "''meme''" fresh_canvas "demo_browser 800 400" 800 400]
    by (simp add: d f hello_world_fields hello_world_bitmap scale_800_400)
qed

subsection \<open>Rendering again\<close>

lemma img_onload_idem:
  "img_onload b s src iw ih (img_onload b s src iw ih c) = img_onload b s src iw ih c"
proof (cases s rule: img_onload_cases)
  case plain then show ?thesis by (simp add: img_onload_plain)
next
  case manual then show ?thesis by (simp add: img_onload_manual Let_def)
next
  case magic then show ?thesis by (simp add: img_onload_magic Let_def)
qed

lemma img_onload_bitmap_irrelevant:
  "img_onload b s src iw ih (c\<lparr>bitmap := old\<rparr>) = img_onload b s src iw ih c"
proof (cases s rule: img_onload_cases)
  case plain then show ?thesis by (simp add: img_onload_plain)
next
  case manual then show ?thesis by (simp add: img_onload_manual Let_def)
next
  case magic then show ?thesis by (simp add: img_onload_magic Let_def)
qed

lemma img_onload_inputs:
  assumes "selectedCaption s' = selectedCaption s" and "topText s' = topText s"
    and "bottomText s' = bottomText s" and "mode s' = mode s"
  shows "img_onload b s' src iw ih c = img_onload b s src iw ih c"
  unfolding img_onload_def assms by (rule refl)

lemma render_effect_idem: "render_effect b s (render_effect b s cr) = render_effect b s cr"
proof (cases cr)
  case None
  then show ?thesis by (simp add: render_effect_def split: option.splits)
next
  case (Some c)
  show ?thesis
  proof (cases "imageSrc s")
    case None
    with Some show ?thesis by (simp add: render_effect_def)
  next
    case src: (Some src)
    show ?thesis
    proof (cases "src \<noteq> [] \<and> supports2d c")
      case False
      with Some src show ?thesis by (auto simp: render_effect_def)
    next
      case True
      show ?thesis
      proof (cases "decode b src")
        case None
        with Some src True show ?thesis by (simp add: render_effect_def)
      next
        case dims: (Some dims)
        obtain iw ih where "dims = (iw, ih)" by (cases dims)
        with dims Some src True show ?thesis
          by (simp add: render_effect_def img_onload_supports2d img_onload_idem)
      qed
    qed
  qed
qed

text \<open>
  Claim C7. The effect reads the image, the selected caption, the top and bottom text
  and the mode: two sessions that agree on these give the same canvas. Running the
  effect a second time on its own result changes nothing. When the effect draws, what
  was on the bitmap before does not matter.
\<close>

theorem render_deterministic:
  "(imageSrc s' = imageSrc s \<and> selectedCaption s' = selectedCaption s
      \<and> topText s' = topText s \<and> bottomText s' = bottomText s \<and> mode s' = mode s
      \<longrightarrow> render_effect b s' cr = render_effect b s cr)
   \<and> render_effect b s (render_effect b s cr) = render_effect b s cr
   \<and> (imageSrc s = Some src \<and> src \<noteq> [] \<and> supports2d c \<and> decode b src \<noteq> None
      \<longrightarrow> render_effect b s (Some (c\<lparr>bitmap := old\<rparr>)) = render_effect b s (Some c))"
proof (intro conjI impI)
  assume "imageSrc s' = imageSrc s \<and> selectedCaption s' = selectedCaption s
      \<and> topText s' = topText s \<and> bottomText s' = bottomText s \<and> mode s' = mode s"
  then show "render_effect b s' cr = render_effect b s cr"
    by (simp add: render_effect_def img_onload_inputs [of s' s] split: option.splits)
next
  show "render_effect b s (render_effect b s cr) = render_effect b s cr"
    by (rule render_effect_idem)
next
  assume "imageSrc s = Some src \<and> src \<noteq> [] \<and> supports2d c \<and> decode b src \<noteq> None"
  then show "render_effect b s (Some (c\<lparr>bitmap := old\<rparr>)) = render_effect b s (Some c)"
    by (auto simp: render_effect_def img_onload_bitmap_irrelevant)
qed

theorem render_deterministic_witness:
  "imageSrc one_does_not_simply = Some ''meme'' \<and> supports2d fresh_canvas
   \<and> decode (demo_browser 600 600) ''meme'' \<noteq> None
   \<and> render_effect (demo_browser 600 600) one_does_not_simply (Some fresh_canvas)
       = Some (img_onload (demo_browser 600 600) one_does_not_simply ''meme'' 600 600 fresh_canvas)
   \<and> render_effect (demo_browser 600 600) one_does_not_simply
        (render_effect (demo_browser 600 600) one_does_not_simply (Some fresh_canvas))
       = render_effect (demo_browser 600 600) one_does_not_simply (Some fresh_canvas)
   \<and> render_effect (demo_browser 600 600) (one_does_not_simply\<lparr>isLoading := True\<rparr>)
        (Some fresh_canvas)
       = render_effect (demo_browser 600 600) one_does_not_simply (Some fresh_canvas)
   \<and> render_effect (demo_browser 600 600) one_does_not_simply
        (Some (fresh_canvas\<lparr>bitmap := [DrawImage ''old'' 0 0 300 150]\<rparr>))
       = render_effect (demo_browser 600 600) one_does_not_simply (Some fresh_canvas)"
  using render_deterministic
    [of "one_does_not_simply\<lparr>isLoading := True\<rparr>" one_does_not_simply "demo_browser 600 600"
        "Some fresh_canvas" "''meme''" fresh_canvas "[DrawImage ''old'' 0 0 300 150]"]
  by (simp add: one_does_not_simply_def initial_state_def fresh_canvas_def demo_browser_def
      render_effect_def)

subsection \<open>Where the lines of a magic caption are drawn\<close>

text \<open>
  In general the lines are drawn \<open>fontSize * 1.1\<close> apart, and the bottom one of
  \<open>k\<close> lines lies \<open>(k - 1) * fontSize / 10\<close> below the position 20px above the
  bottom edge.
\<close>

lemma stroke_calls_line_ops:
  "stroke_calls (line_ops b cx x y fs i ls)
     = map (\<lambda>(j, l). (toUpperCase b l, x, y + real j * real_of_int fs * (11 / 10)))
         (enumerate i ls)"
  by (induction ls arbitrary: i) simp_all

lemma wrap_caption_not_Nil: "wrap_caption m w caption \<noteq> []"
  by (simp add: wrap_caption_def split_def Let_def)

lemma magic_caption_line_positions:
  fixes s :: app_state and b :: browser and iw ih :: nat
  assumes "mode s = CAPTION" and "topText s = []" and "bottomText s = []"
    and "selectedCaption s \<noteq> []"
  defines "w \<equiv> fst (scale_dims iw ih)" and "h \<equiv> snd (scale_dims iw ih)"
  defines "lineArray \<equiv>
             wrap_caption (measureText b (font (caption_ctx w ''top''))) w (selectedCaption s)"
  defines "k \<equiv> length lineArray"
  shows "stroke_calls (bitmap (img_onload b s src iw ih c))
           = map (\<lambda>(j, l). (toUpperCase b l, real w / 2,
                    real h - 20 - (real k - 1) * real (w div 10)
                      + real j * real (w div 10) * (11 / 10)))
               (enumerate 0 lineArray)"
    and "snd (snd (last (stroke_calls (bitmap (img_onload b s src iw ih c)))))
           = real h - 20 + (real k - 1) * real (w div 10) / 10"
proof -
  show calls: "stroke_calls (bitmap (img_onload b s src iw ih c))
           = map (\<lambda>(j, l). (toUpperCase b l, real w / 2,
                    real h - 20 - (real k - 1) * real (w div 10)
                      + real j * real (w div 10) * (11 / 10)))
               (enumerate 0 lineArray)"
    using assms(1-4) unfolding w_def h_def lineArray_def k_def
    by (simp add: img_onload_magic Let_def stroke_calls_line_ops Math_floor_div10)
  have "lineArray \<noteq> []"
    unfolding lineArray_def by (rule wrap_caption_not_Nil)
  then obtain ls l where ls: "lineArray = ls @ [l]"
    by (cases lineArray rule: rev_cases) auto
  then have k: "real k - 1 = real (length ls)"
    by (simp add: k_def)
  show "snd (snd (last (stroke_calls (bitmap (img_onload b s src iw ih c)))))
           = real h - 20 + (real k - 1) * real (w div 10) / 10"
    unfolding calls k by (simp add: ls enumerate_append_eq algebra_simps)
qed

text \<open>
  Claim C2 puts the baseline of the bottom line 20px above the bottom edge and spaces
  the lines by \<open>fontSize * 1.1\<close>. The effect starts at
  \<open>height - 20 - (k - 1) * fontSize\<close> and steps by \<open>fontSize * 1.1\<close>. On a surface
  of 600 by 600 (font size 60) a caption of two lines has its first line at 520 and its
  bottom line at 586, which is 14px above the bottom edge, not 20px.
\<close>

theorem magic_caption_bottom_line_example:
  "height (img_onload (demo_browser 600 600) one_does_not_simply ''meme'' 600 600 fresh_canvas)
     = 600
   \<and> stroke_calls
       (bitmap (img_onload (demo_browser 600 600) one_does_not_simply ''meme'' 600 600
                  fresh_canvas))
       = [(''ONE DOES NOT '', 300, 520), (''SIMPLY WRAP TEXT '', 300, 586)]"
  by (simp add: one_does_not_simply_canvas)

theorem magic_caption_bottom_line_example_witness:
  "snd (snd (last (stroke_calls
       (bitmap (img_onload (demo_browser 600 600) one_does_not_simply ''meme'' 600 600
                  fresh_canvas)))))
     = 586
   \<and> real (height (img_onload (demo_browser 600 600) one_does_not_simply ''meme'' 600 600
                      fresh_canvas)) - 20
     = 580"
  using magic_caption_bottom_line_example
  by simp

end
